theory Spec2Isabelle
  imports
    Main
    "HOL-Library.Char_ord"
    "HOL-Library.List_Lexorder"
    "HOL-Library.Product_Lexorder"
    "HOL-Library.Multiset"
    "HOL-Library.Sublist"
begin

section \<open>Strings\<close>

text \<open>
  Python strings are modelled as \<^typ>\<open>string\<close>. \<open>str.lower()\<close> is modelled on the
  ASCII letters; every other character is left as it is. Strings are compared as Python
  compares them: lexicographically, character by character.
\<close>

definition lower_char :: "char \<Rightarrow> char" where
  "lower_char c =
     (case map_of (zip ''ABCDEFGHIJKLMNOPQRSTUVWXYZ'' ''abcdefghijklmnopqrstuvwxyz'') c of
        None \<Rightarrow> c
      | Some d \<Rightarrow> d)"

definition lower :: "string \<Rightarrow> string" where
  "lower s = map lower_char s"

text \<open>The Python test \<open>sub in s\<close> on strings: \<open>sub\<close> occurs in \<open>s\<close> as a contiguous run.\<close>

fun str_contains :: "string \<Rightarrow> string \<Rightarrow> bool" where
  "str_contains sub [] = (sub = [])"
| "str_contains sub (c # cs) = (if prefix sub (c # cs) then True else str_contains sub cs)"

section \<open>Errors and arguments\<close>

text \<open>
  Every failure of the module is \<open>raise Exception(message)\<close>; the message is kept.
  The \<open>exclusions\<close> argument of the scanning and filtering operations is an arbitrary
  Python object, tested with \<open>isinstance(exclusions, Exclusions)\<close>.
\<close>

datatype error = Exception string

record Exclusions =
  users :: "string list"
  groups :: "string list"
  roles :: "string list"
  policies :: "string list"

datatype pyobject = ExclusionsObj Exclusions | OtherObj string

section \<open>The principal policy mapping and its exclusion filter\<close>

text \<open>
  Class \<open>PrincipalPolicyMappingEntry\<close>. The field \<open>principal_type\<close> of the source is
  \<open>entry_principal_type\<close> here, since the principals have a field of the same name.
  \<open>comment\<close> is \<open>None\<close> or a list of group names.
\<close>

record PrincipalPolicyMappingEntry =
  principal_name :: string
  entry_principal_type :: string
  policy_type :: string
  managed_by :: string
  policy_name :: string
  comment :: "string list option"

record PrincipalPolicyMapping =
  entries :: "PrincipalPolicyMappingEntry list"

text \<open>
  \<open>add\<close> raises an exception for an argument that is not a \<open>PrincipalPolicyMappingEntry\<close>;
  here the argument has that type.
\<close>

definition add :: "PrincipalPolicyMappingEntry \<Rightarrow> PrincipalPolicyMapping \<Rightarrow> PrincipalPolicyMapping" where
  "add e m = m\<lparr>entries := entries m @ [e]\<rparr>"

definition mapping_users :: "PrincipalPolicyMapping \<Rightarrow> PrincipalPolicyMappingEntry list" where
  "mapping_users m = filter (\<lambda>e. entry_principal_type e = ''User'') (entries m)"

definition mapping_groups :: "PrincipalPolicyMapping \<Rightarrow> PrincipalPolicyMappingEntry list" where
  "mapping_groups m = filter (\<lambda>e. entry_principal_type e = ''Group'') (entries m)"

definition mapping_roles :: "PrincipalPolicyMapping \<Rightarrow> PrincipalPolicyMappingEntry list" where
  "mapping_roles m = filter (\<lambda>e. entry_principal_type e = ''Role'') (entries m)"

text \<open>The truth value of \<open>entry.comment\<close>: \<open>None\<close> and the empty list are false.\<close>

definition comment_groups :: "PrincipalPolicyMappingEntry \<Rightarrow> string list" where
  "comment_groups e = (case comment e of None \<Rightarrow> [] | Some c \<Rightarrow> c)"

text \<open>The body of the loop over \<open>self.users\<close>, lines 494 to 503.\<close>

definition filter_user_entry ::
  "Exclusions \<Rightarrow> PrincipalPolicyMappingEntry \<Rightarrow> PrincipalPolicyMapping \<Rightarrow> PrincipalPolicyMapping" where
  "filter_user_entry ex user_entry filtered =
     (if lower (principal_name user_entry) \<notin> set (users ex) then
        if lower (policy_name user_entry) \<notin> set (policies ex) then
          if comment_groups user_entry \<noteq> [] then
            fold (\<lambda>group_name acc.
                    if lower group_name \<notin> set (groups ex) then add user_entry acc else acc)
                 (comment_groups user_entry) filtered
          else filtered
        else filtered
      else filtered)"

text \<open>The list \<open>non_excluded_groups\<close>, rebuilt for each group entry from all entries added so far.\<close>

definition non_excluded_groups :: "PrincipalPolicyMapping \<Rightarrow> string list" where
  "non_excluded_groups filtered =
     fold (\<lambda>user_entry acc.
             if comment_groups user_entry \<noteq> [] then
               fold (\<lambda>user_group_membership acc'. acc' @ [lower user_group_membership])
                    (comment_groups user_entry) acc
             else acc)
          (entries filtered) []"

text \<open>The body of the loop over \<open>self.groups\<close>, lines 504 to 519.\<close>

definition filter_group_entry ::
  "Exclusions \<Rightarrow> PrincipalPolicyMappingEntry \<Rightarrow> PrincipalPolicyMapping \<Rightarrow> PrincipalPolicyMapping" where
  "filter_group_entry ex group_entry filtered =
     (if lower (principal_name group_entry) \<notin> set (groups ex) then
        if lower (policy_name group_entry) \<notin> set (policies ex) then
          if lower (principal_name group_entry) \<in> set (non_excluded_groups filtered)
          then add group_entry filtered else filtered
        else filtered
      else filtered)"

text \<open>The body of the loop over \<open>self.roles\<close>, lines 520 to 523.\<close>

definition filter_role_entry ::
  "Exclusions \<Rightarrow> PrincipalPolicyMappingEntry \<Rightarrow> PrincipalPolicyMapping \<Rightarrow> PrincipalPolicyMapping" where
  "filter_role_entry ex role_entry filtered =
     (if lower (principal_name role_entry) \<notin> set (roles ex) then
        if lower (policy_name role_entry) \<notin> set (policies ex) then add role_entry filtered
        else filtered
      else filtered)"

definition after_user_stage :: "Exclusions \<Rightarrow> PrincipalPolicyMapping \<Rightarrow> PrincipalPolicyMapping" where
  "after_user_stage ex m = fold (filter_user_entry ex) (mapping_users m) \<lparr>entries = []\<rparr>"

definition after_group_stage :: "Exclusions \<Rightarrow> PrincipalPolicyMapping \<Rightarrow> PrincipalPolicyMapping" where
  "after_group_stage ex m = fold (filter_group_entry ex) (mapping_groups m) (after_user_stage ex m)"

definition get_post_exclusion_principal_policy_mapping ::
  "PrincipalPolicyMapping \<Rightarrow> pyobject \<Rightarrow> error + PrincipalPolicyMapping" where
  "get_post_exclusion_principal_policy_mapping m exclusions =
     (case exclusions of
        OtherObj v \<Rightarrow>
          Inl (Exception (''The exclusions provided is not an Exclusions type object. '' @
                          ''Please supply an Exclusions object and try again.''))
      | ExclusionsObj ex \<Rightarrow>
          Inr (fold (filter_role_entry ex) (mapping_roles m) (after_group_stage ex m)))"

section \<open>The entity model\<close>

text \<open>
  A statement is opaque to this module apart from its \<open>effect\<close>. A policy document is
  the list \<open>policy_document.statements\<close>. The entries of \<open>inline_principal_policies\<close> and of
  \<open>policy_list\<close> are dictionaries with the keys \<open>PolicyName\<close> and \<open>PolicyDocument\<close>; the
  entries of \<open>attached_managed_policies\<close> have the keys \<open>PolicyName\<close> and \<open>PolicyArn\<close>.
\<close>

record Statement =
  effect :: string
  actions :: "string list"
  resources :: "string list"

record PolicyEntry =
  policy_PolicyName :: string
  policy_PolicyDocument :: "Statement list"

record AttachedManagedPolicy =
  attached_PolicyName :: string
  attached_PolicyArn :: string

text \<open>An element of \<open>self.policies.policy_details\<close>.\<close>

record PolicyDetail =
  pd_policy_name :: string
  pd_arn :: string
  pd_full_policy_path :: string
  pd_policy_document :: "Statement list"

text \<open>
  An element of \<open>principals\<close> of a \<open>PrincipalTypeDetails\<close>. \<open>principal_type\<close> is the string
  the source compares with \<open>"User"\<close>, \<open>"Group"\<close> and \<open>"Role"\<close>.
\<close>

record PrincipalDetail =
  name :: string
  arn :: string
  principal_type :: string
  inline_principal_policies :: "PolicyEntry list"
  attached_managed_policies :: "AttachedManagedPolicy list"
  policy_list :: "PolicyEntry list"
  group_member :: "string list"
  members :: "string list"
  assume_role_policy_document :: "Statement list"

text \<open>The four finding classes, with the keyword arguments of their constructors in order.\<close>

datatype Finding =
    UserFinding string string "string list" "Statement list" Exclusions
      "AttachedManagedPolicy list" "string list"
  | GroupFinding string string "string list" "Statement list" Exclusions
      "string list" "AttachedManagedPolicy list"
  | RoleFinding string string "string list" "Statement list" Exclusions
      "Statement list" "AttachedManagedPolicy list"
  | PolicyFinding string string "string list" "Statement list" Exclusions

fun finding_actions :: "Finding \<Rightarrow> string list" where
  "finding_actions (UserFinding pn a acts doc ex amps gm) = acts"
| "finding_actions (GroupFinding pn a acts doc ex ms amps) = acts"
| "finding_actions (RoleFinding pn a acts doc ex trust amps) = acts"
| "finding_actions (PolicyFinding pn a acts doc ex) = acts"

text \<open>The dictionaries built by \<open>AuthorizationDetails.principal_policy_mapping\<close>.\<close>

record MappingDict =
  Principal :: string
  Type :: string
  PolicyType :: string
  ManagedBy :: string
  PolicyName :: string
  GroupMembership :: "string list option"

text \<open>The dictionaries built by \<open>PrincipalPolicyMappingEntry.json\<close>.\<close>

record EntryJson =
  json_Principal :: string
  json_Type :: string
  json_PolicyType :: string
  json_ManagedBy :: string
  json_PolicyName :: string
  json_Comment :: "string list option"

text \<open>
  Modelled from the spec: the class \<open>Findings\<close> of \<open>cloudsplaining.output.findings\<close>, a
  container that accumulates policy, user, group and role findings, holds the principal
  policy mapping and exposes them as its serialisable result \<open>json\<close>.
\<close>

record Findings =
  findings_exclusions :: Exclusions
  policy_findings :: "Finding list"
  user_findings :: "Finding list"
  group_findings :: "Finding list"
  role_findings :: "Finding list"
  findings_principal_policy_mapping :: "MappingDict list"

definition new_Findings :: "Exclusions \<Rightarrow> Findings" where
  "new_Findings ex =
     \<lparr>findings_exclusions = ex, policy_findings = [], user_findings = [],
      group_findings = [], role_findings = [], findings_principal_policy_mapping = []\<rparr>"

definition add_policy_finding :: "Finding \<Rightarrow> Findings \<Rightarrow> Findings" where
  "add_policy_finding f fs = fs\<lparr>policy_findings := policy_findings fs @ [f]\<rparr>"

definition add_user_finding :: "Finding \<Rightarrow> Findings \<Rightarrow> Findings" where
  "add_user_finding f fs = fs\<lparr>user_findings := user_findings fs @ [f]\<rparr>"

definition add_group_finding :: "Finding \<Rightarrow> Findings \<Rightarrow> Findings" where
  "add_group_finding f fs = fs\<lparr>group_findings := group_findings fs @ [f]\<rparr>"

definition add_role_finding :: "Finding \<Rightarrow> Findings \<Rightarrow> Findings" where
  "add_role_finding f fs = fs\<lparr>role_findings := role_findings fs @ [f]\<rparr>"

definition findings_json ::
  "Findings \<Rightarrow> Finding list \<times> Finding list \<times> Finding list \<times> Finding list \<times> MappingDict list" where
  "findings_json fs =
     (policy_findings fs, user_findings fs, group_findings fs, role_findings fs,
      findings_principal_policy_mapping fs)"

text \<open>
  The collaborators this module calls and does not define: the two exclusion queries and
  the two statement evaluators. They are parameters of the scan.
\<close>

record External =
  is_policy_excluded :: "Exclusions \<Rightarrow> string \<Rightarrow> bool"
  is_principal_excluded :: "PrincipalDetail \<Rightarrow> Exclusions \<Rightarrow> bool"
  missing_resource_constraints_for_modify_actions :: "Statement \<Rightarrow> Exclusions \<Rightarrow> string list"
  statement_missing_resource_constraints :: "Statement \<Rightarrow> Exclusions \<Rightarrow> string list"

text \<open>
  The object state of \<open>AuthorizationDetails\<close>: \<open>policy_details\<close> is
  \<open>self.policies.policy_details\<close>, the three detail lists are the \<open>principals\<close> of
  \<open>self.user_detail_list\<close>, \<open>self.group_detail_list\<close> and \<open>self.role_detail_list\<close>.
\<close>

record AuthorizationDetails =
  policy_details :: "PolicyDetail list"
  user_detail_list :: "PrincipalDetail list"
  group_detail_list :: "PrincipalDetail list"
  role_detail_list :: "PrincipalDetail list"
  findings :: Findings

section \<open>The managed policy classifier\<close>

text \<open>\<open>list(dict.fromkeys(xs))\<close>: the keys of a dictionary are kept in insertion order.\<close>

definition dict_fromkeys :: "'a list \<Rightarrow> 'a list" where
  "dict_fromkeys xs = fold (\<lambda>x keys. if x \<in> set keys then keys else keys @ [x]) xs []"

definition aws_arn :: "string \<Rightarrow> bool" where
  "aws_arn a = str_contains ''arn:aws:iam::aws:'' a"

text \<open>The loop over the attached managed policies of the principals of one detail list.\<close>

definition attached_names :: "(string \<Rightarrow> bool) \<Rightarrow> PrincipalDetail list \<Rightarrow> string list \<Rightarrow> string list" where
  "attached_names wanted principals acc0 =
     fold (\<lambda>prin acc.
             fold (\<lambda>attached_managed_policy acc'.
                     if wanted (attached_PolicyArn attached_managed_policy)
                     then acc' @ [attached_PolicyName attached_managed_policy] else acc')
                  (attached_managed_policies prin) acc)
          principals acc0"

definition standalone_names :: "(string \<Rightarrow> bool) \<Rightarrow> PolicyDetail list \<Rightarrow> string list" where
  "standalone_names wanted ps =
     fold (\<lambda>policy acc. if wanted (pd_arn policy) then acc @ [pd_policy_name policy] else acc) ps []"

definition aws_managed_policies_in_use :: "AuthorizationDetails \<Rightarrow> string list" where
  "aws_managed_policies_in_use self =
     (let aws_managed_policies = standalone_names aws_arn (policy_details self);
          aws_managed_policies = attached_names aws_arn (group_detail_list self) aws_managed_policies;
          aws_managed_policies = attached_names aws_arn (user_detail_list self) aws_managed_policies;
          aws_managed_policies = attached_names aws_arn (role_detail_list self) aws_managed_policies
      in dict_fromkeys aws_managed_policies)"

definition customer_managed_policies_in_use :: "AuthorizationDetails \<Rightarrow> string list" where
  "customer_managed_policies_in_use self =
     (let customer_managed_policies = standalone_names (\<lambda>a. \<not> aws_arn a) (policy_details self);
          customer_managed_policies =
            attached_names (\<lambda>a. \<not> aws_arn a) (group_detail_list self) customer_managed_policies;
          customer_managed_policies =
            attached_names (\<lambda>a. \<not> aws_arn a) (user_detail_list self) customer_managed_policies;
          customer_managed_policies =
            attached_names (\<lambda>a. \<not> aws_arn a) (role_detail_list self) customer_managed_policies
      in dict_fromkeys customer_managed_policies)"

text \<open>
  The order the specification gives for the classifier, for comparison with the two
  functions above: standalone policies, then users, then groups, then roles.
\<close>

definition spec_order_names :: "(string \<Rightarrow> bool) \<Rightarrow> AuthorizationDetails \<Rightarrow> string list" where
  "spec_order_names wanted self =
     dict_fromkeys
       (attached_names wanted (role_detail_list self)
         (attached_names wanted (group_detail_list self)
           (attached_names wanted (user_detail_list self)
             (standalone_names wanted (policy_details self)))))"

section \<open>The principal policy mapping builder\<close>

definition principals :: "AuthorizationDetails \<Rightarrow> PrincipalDetail list" where
  "principals self = user_detail_list self @ group_detail_list self @ role_detail_list self"

definition inline_entry :: "PrincipalDetail \<Rightarrow> PolicyEntry \<Rightarrow> string list option \<Rightarrow> MappingDict" where
  "inline_entry prin inline_policy gm =
     \<lparr>Principal = name prin, Type = principal_type prin, PolicyType = ''Inline'',
      ManagedBy = ''Customer'', PolicyName = policy_PolicyName inline_policy,
      GroupMembership = gm\<rparr>"

definition managed_entry ::
  "PrincipalDetail \<Rightarrow> AttachedManagedPolicy \<Rightarrow> string list option \<Rightarrow> MappingDict" where
  "managed_entry prin attached_managed_policy gm =
     (let managed_by =
            (if aws_arn (attached_PolicyArn attached_managed_policy) then ''AWS'' else ''Customer'')
      in \<lparr>Principal = name prin, Type = principal_type prin, PolicyType = ''Managed'',
          ManagedBy = managed_by, PolicyName = attached_PolicyName attached_managed_policy,
          GroupMembership = gm\<rparr>)"

text \<open>
  The entries a principal gets from the policies of \<open>owner\<close>: its own with
  \<open>GroupMembership=None\<close> (lines 166 to 192), or those of a group it belongs to with
  \<open>GroupMembership=principal.group_member\<close> (lines 205 to 240).
\<close>

definition policy_entries ::
  "PrincipalDetail \<Rightarrow> PrincipalDetail \<Rightarrow> string list option \<Rightarrow> MappingDict list \<Rightarrow> MappingDict list" where
  "policy_entries prin owner gm acc0 =
     (let acc1 =
            (if inline_principal_policies owner \<noteq> [] then
               fold (\<lambda>inline_policy acc. acc @ [inline_entry prin inline_policy gm])
                    (inline_principal_policies owner) acc0
             else acc0)
      in if attached_managed_policies owner \<noteq> [] then
           fold (\<lambda>attached_managed_policy acc. acc @ [managed_entry prin attached_managed_policy gm])
                (attached_managed_policies owner) acc1
         else acc1)"

text \<open>The loop of lines 197 to 240, run for a principal of type \<open>"User"\<close>.\<close>

definition group_inherited_entries ::
  "PrincipalDetail list \<Rightarrow> PrincipalDetail \<Rightarrow> MappingDict list \<Rightarrow> MappingDict list" where
  "group_inherited_entries all_principals prin acc0 =
     fold (\<lambda>group_membership acc.
             fold (\<lambda>some_principal acc'.
                     if principal_type some_principal = ''Group''
                        \<and> name some_principal = group_membership
                     then policy_entries prin some_principal (Some (group_member prin)) acc'
                     else acc')
                  all_principals acc)
          (group_member prin) acc0"

definition principal_entries ::
  "PrincipalDetail list \<Rightarrow> PrincipalDetail \<Rightarrow> MappingDict list \<Rightarrow> MappingDict list" where
  "principal_entries all_principals prin acc0 =
     (let acc1 = policy_entries prin prin None acc0
      in if principal_type prin = ''User''
         then group_inherited_entries all_principals prin acc1
         else acc1)"

definition mapping_key :: "MappingDict \<Rightarrow> string \<times> string \<times> string \<times> string" where
  "mapping_key e = (Type e, Principal e, PolicyType e, PolicyName e)"

definition unsorted_principal_policy_mapping :: "AuthorizationDetails \<Rightarrow> MappingDict list" where
  "unsorted_principal_policy_mapping self =
     fold (principal_entries (principals self)) (principals self) []"

text \<open>\<open>sorted(..., key=itemgetter(...))\<close> is a stable sort on the tuple of the four keys.\<close>

definition principal_policy_mapping :: "AuthorizationDetails \<Rightarrow> MappingDict list" where
  "principal_policy_mapping self = sort_key mapping_key (unsorted_principal_policy_mapping self)"

definition entry_json :: "PrincipalPolicyMappingEntry \<Rightarrow> EntryJson" where
  "entry_json e =
     \<lparr>json_Principal = principal_name e, json_Type = entry_principal_type e,
      json_PolicyType = policy_type e, json_ManagedBy = managed_by e,
      json_PolicyName = policy_name e, json_Comment = comment e\<rparr>"

definition json_key :: "EntryJson \<Rightarrow> string \<times> string \<times> string \<times> string" where
  "json_key e = (json_Type e, json_Principal e, json_PolicyType e, json_PolicyName e)"

definition mapping_json :: "PrincipalPolicyMapping \<Rightarrow> EntryJson list" where
  "mapping_json m = sort_key json_key (map entry_json (entries m))"

section \<open>The scan engine\<close>

text \<open>
  The loop over the statements of one policy document, lines 286 to 298 and 357 to 369.
  The \<open>print\<close> calls of the scan write diagnostics only and are left out.
\<close>

definition collect_actions :: "External \<Rightarrow> Exclusions \<Rightarrow> bool \<Rightarrow> Statement list \<Rightarrow> string list" where
  "collect_actions X ex modify_only statements =
     fold (\<lambda>statement actions_missing_resource_constraints.
             if modify_only then
               if effect statement = ''Allow'' then
                 actions_missing_resource_constraints
                   @ missing_resource_constraints_for_modify_actions X statement ex
               else actions_missing_resource_constraints
             else
               if effect statement = ''Allow'' then
                 actions_missing_resource_constraints
                   @ statement_missing_resource_constraints X statement ex
               else actions_missing_resource_constraints)
          statements []"

text \<open>The body of the loop of \<open>scan_policy_details\<close>, lines 278 to 311.\<close>

definition scan_policy :: "External \<Rightarrow> Exclusions \<Rightarrow> bool \<Rightarrow> PolicyDetail \<Rightarrow> Findings \<Rightarrow> Findings" where
  "scan_policy X ex modify_only policy fs =
     (if is_policy_excluded X ex (pd_policy_name policy)
         \<or> is_policy_excluded X ex (pd_full_policy_path policy)
      then fs
      else
        let actions_missing_resource_constraints =
              collect_actions X ex modify_only (pd_policy_document policy)
        in if actions_missing_resource_constraints \<noteq> [] then
             add_policy_finding
               (PolicyFinding (pd_policy_name policy) (pd_arn policy)
                  (sort (dict_fromkeys actions_missing_resource_constraints))
                  (pd_policy_document policy) ex)
               fs
           else fs)"

definition invalid_exclusions :: error where
  "invalid_exclusions =
     Exception (''The provided exclusions is not the Exclusions object type. '' @
                ''Please use the Exclusions object.'')"

definition scan_policy_details ::
  "External \<Rightarrow> pyobject \<Rightarrow> bool \<Rightarrow> AuthorizationDetails \<Rightarrow> (error + unit) \<times> AuthorizationDetails" where
  "scan_policy_details X exclusions modify_only self =
     (case exclusions of
        OtherObj v \<Rightarrow> (Inl invalid_exclusions, self)
      | ExclusionsObj ex \<Rightarrow>
          (Inr (),
           self\<lparr>findings := fold (scan_policy X ex modify_only) (policy_details self) (findings self)\<rparr>))"

text \<open>
  The dictionary \<open>groups\<close> of the membership resolution, lines 327 to 337, as an
  association list in insertion order: a new key is added with the one name, an old key
  has the name appended to its list.
\<close>

definition groups_append ::
  "string \<Rightarrow> string \<Rightarrow> (string \<times> string list) list \<Rightarrow> (string \<times> string list) list" where
  "groups_append grp user d =
     (if grp \<notin> set (map fst d) then d @ [(grp, [user])]
      else map (\<lambda>(k, vs). if k = grp then (k, vs @ [user]) else (k, vs)) d)"

definition collect_groups :: "PrincipalDetail list \<Rightarrow> (string \<times> string list) list" where
  "collect_groups ps =
     fold (\<lambda>prin d.
             if principal_type prin = ''Users'' then
               if group_member prin \<noteq> [] then
                 fold (\<lambda>grp d'. groups_append grp (name prin) d') (group_member prin) d
               else d
             else d)
          ps []"

text \<open>The body of the second loop, lines 338 to 343: \<open>principal.members.extend(groups[group])\<close>.\<close>

definition resolve_members :: "(string \<times> string list) list \<Rightarrow> PrincipalDetail \<Rightarrow> PrincipalDetail" where
  "resolve_members d prin =
     (if principal_type prin = ''Groups'' then
        fold (\<lambda>(grp, names) p.
                if lower grp = lower (name prin) then p\<lparr>members := members p @ names\<rparr> else p)
             d prin
      else prin)"

text \<open>The body of the third loop for one policy of one principal, lines 347 to 413.\<close>

definition scan_principal_policy ::
  "External \<Rightarrow> Exclusions \<Rightarrow> bool \<Rightarrow> PrincipalDetail \<Rightarrow> PolicyEntry \<Rightarrow> Findings \<Rightarrow> Findings" where
  "scan_principal_policy X ex modify_only prin policy fs =
     (if is_policy_excluded X ex (policy_PolicyName policy) then fs
      else if is_principal_excluded X prin ex then fs
      else
        let actions_missing_resource_constraints =
              collect_actions X ex modify_only (policy_PolicyDocument policy)
        in if actions_missing_resource_constraints \<noteq> [] then
             if principal_type prin = ''User'' then
               add_user_finding
                 (UserFinding (policy_PolicyName policy) (arn prin)
                    actions_missing_resource_constraints (policy_PolicyDocument policy) ex
                    (attached_managed_policies prin) (group_member prin))
                 fs
             else if principal_type prin = ''Group'' then
               add_group_finding
                 (GroupFinding (policy_PolicyName policy) (arn prin)
                    actions_missing_resource_constraints (policy_PolicyDocument policy) ex
                    (members prin) (attached_managed_policies prin))
                 fs
             else if principal_type prin = ''Role'' then
               add_role_finding
                 (RoleFinding (policy_PolicyName policy) (arn prin)
                    actions_missing_resource_constraints (policy_PolicyDocument policy) ex
                    (assume_role_policy_document prin) (attached_managed_policies prin))
                 fs
             else fs
           else fs)"

definition scan_principal :: "External \<Rightarrow> Exclusions \<Rightarrow> bool \<Rightarrow> PrincipalDetail \<Rightarrow> Findings \<Rightarrow> Findings" where
  "scan_principal X ex modify_only prin fs =
     fold (scan_principal_policy X ex modify_only prin) (policy_list prin) fs"

text \<open>
  \<open>scan_principal_type_details\<close> changes the principals of the list it is given (their
  \<open>members\<close>) and \<open>self.findings\<close>. The list is an argument and may be one of the lists of
  \<open>self\<close>, so the model returns the changed list beside the changed object and the caller
  stores it where it came from.
\<close>

definition scan_principal_type_details ::
  "External \<Rightarrow> PrincipalDetail list \<Rightarrow> pyobject \<Rightarrow> bool \<Rightarrow> AuthorizationDetails
     \<Rightarrow> (error + unit) \<times> PrincipalDetail list \<times> AuthorizationDetails" where
  "scan_principal_type_details X principal_type_detail_list exclusions modify_only self =
     (case exclusions of
        OtherObj v \<Rightarrow> (Inl invalid_exclusions, principal_type_detail_list, self)
      | ExclusionsObj ex \<Rightarrow>
          let d = collect_groups principal_type_detail_list;
              resolved = map (resolve_members d) principal_type_detail_list
          in (Inr (), resolved,
              self\<lparr>findings := fold (scan_principal X ex modify_only) resolved (findings self)\<rparr>))"

text \<open>
  \<open>missing_resource_constraints\<close>, lines 248 to 269. An exception of a step leaves the
  function with the state reached so far.
\<close>

definition missing_resource_constraints ::
  "External \<Rightarrow> pyobject \<Rightarrow> bool \<Rightarrow> AuthorizationDetails
     \<Rightarrow> (error + Finding list \<times> Finding list \<times> Finding list \<times> Finding list \<times> MappingDict list)
         \<times> AuthorizationDetails" where
  "missing_resource_constraints X exclusions modify_only self =
     (case exclusions of
        OtherObj v \<Rightarrow> (Inl invalid_exclusions, self)
      | ExclusionsObj ex \<Rightarrow>
          let s0 = self\<lparr>findings := new_Findings ex\<rparr> in
          case scan_principal_type_details X (user_detail_list s0) exclusions modify_only s0 of
            (Inl e, us, s1) \<Rightarrow> (Inl e, s1\<lparr>user_detail_list := us\<rparr>)
          | (Inr u, us, s1') \<Rightarrow>
          let s1 = s1'\<lparr>user_detail_list := us\<rparr> in
          case scan_principal_type_details X (group_detail_list s1) exclusions modify_only s1 of
            (Inl e, gs, s2) \<Rightarrow> (Inl e, s2\<lparr>group_detail_list := gs\<rparr>)
          | (Inr u, gs, s2') \<Rightarrow>
          let s2 = s2'\<lparr>group_detail_list := gs\<rparr> in
          case scan_principal_type_details X (role_detail_list s2) exclusions modify_only s2 of
            (Inl e, rs, s3) \<Rightarrow> (Inl e, s3\<lparr>role_detail_list := rs\<rparr>)
          | (Inr u, rs, s3') \<Rightarrow>
          let s3 = s3'\<lparr>role_detail_list := rs\<rparr>;
              s4 = s3\<lparr>findings := (findings s3)
                      \<lparr>findings_principal_policy_mapping := principal_policy_mapping s3\<rparr>\<rparr>
          in
          case scan_policy_details X exclusions modify_only s4 of
            (Inl e, s5) \<Rightarrow> (Inl e, s5)
          | (Inr u, s5) \<Rightarrow> (Inr (findings_json (findings s5)), s5))"

section \<open>Auxiliary definitions for the statements\<close>

text \<open>
  The number of times the user loop of the filter adds an entry: once for each group of its
  comment that is not excluded, when neither the user nor the policy is excluded.
\<close>

definition user_copies :: "Exclusions \<Rightarrow> PrincipalPolicyMappingEntry \<Rightarrow> nat" where
  "user_copies ex e =
     (if lower (principal_name e) \<notin> set (users ex) then
        if lower (policy_name e) \<notin> set (policies ex) then
          length (filter (\<lambda>g. lower g \<notin> set (groups ex)) (comment_groups e))
        else 0
      else 0)"

text \<open>
  The names the classifier collects from the attached managed policies of a list of
  principals and from the standalone policies, written with \<open>map\<close> and \<open>filter\<close>.
\<close>

definition classified_names :: "(string \<Rightarrow> bool) \<Rightarrow> PrincipalDetail list \<Rightarrow> string list" where
  "classified_names wanted ps =
     map attached_PolicyName
       (filter (\<lambda>a. wanted (attached_PolicyArn a)) (concat (map attached_managed_policies ps)))"

definition classified_standalone :: "(string \<Rightarrow> bool) \<Rightarrow> PolicyDetail list \<Rightarrow> string list" where
  "classified_standalone wanted ps = map pd_policy_name (filter (\<lambda>p. wanted (pd_arn p)) ps)"

text \<open>
  The entries of the mapping builder in closed form: those a principal gets from the
  policies of an owner, those a user inherits from the groups whose name equals a declared
  group name, and all entries of one principal. \<open>forget_members\<close> erases the one field the
  membership resolution writes. \<open>scan_findings\<close> is the aggregator a scan of the object
  builds, written over the lists as they are before the scan.
\<close>

definition own_entries ::
  "PrincipalDetail \<Rightarrow> PrincipalDetail \<Rightarrow> string list option \<Rightarrow> MappingDict list" where
  "own_entries p owner gm =
     map (\<lambda>ip. inline_entry p ip gm) (inline_principal_policies owner)
     @ map (\<lambda>a. managed_entry p a gm) (attached_managed_policies owner)"

definition inherited_entries :: "PrincipalDetail list \<Rightarrow> PrincipalDetail \<Rightarrow> MappingDict list" where
  "inherited_entries all_principals p =
     concat (map (\<lambda>gm.
        concat (map (\<lambda>sp. if principal_type sp = ''Group'' \<and> name sp = gm
                           then own_entries p sp (Some (group_member p)) else [])
                    all_principals))
        (group_member p))"

definition entries_of :: "PrincipalDetail list \<Rightarrow> PrincipalDetail \<Rightarrow> MappingDict list" where
  "entries_of all_principals p =
     own_entries p p None
     @ (if principal_type p = ''User'' then inherited_entries all_principals p else [])"

definition forget_members :: "PrincipalDetail \<Rightarrow> PrincipalDetail" where
  "forget_members p = p\<lparr>members := []\<rparr>"

definition scan_findings :: "External \<Rightarrow> Exclusions \<Rightarrow> bool \<Rightarrow> AuthorizationDetails \<Rightarrow> Findings" where
  "scan_findings X ex modify_only self =
     fold (scan_policy X ex modify_only) (policy_details self)
       ((fold (scan_principal X ex modify_only) (role_detail_list self)
          (fold (scan_principal X ex modify_only) (group_detail_list self)
            (fold (scan_principal X ex modify_only) (user_detail_list self) (new_Findings ex))))
        \<lparr>findings_principal_policy_mapping := principal_policy_mapping self\<rparr>)"

text \<open>
  Two accounts hold the same principals and policies up to order: the three detail lists
  agree as multisets, once the inline and the attached managed policies of each principal
  are read as multisets. Only the fields the mapping builder reads are compared.
\<close>

definition principal_signature ::
  "PrincipalDetail \<Rightarrow>
     string \<times> string \<times> string list \<times> PolicyEntry multiset \<times> AttachedManagedPolicy multiset" where
  "principal_signature p =
     (name p, principal_type p, group_member p,
      mset (inline_principal_policies p), mset (attached_managed_policies p))"

definition same_up_to_order :: "AuthorizationDetails \<Rightarrow> AuthorizationDetails \<Rightarrow> bool" where
  "same_up_to_order a b \<longleftrightarrow>
     image_mset principal_signature (mset (user_detail_list a))
       = image_mset principal_signature (mset (user_detail_list b))
     \<and> image_mset principal_signature (mset (group_detail_list a))
       = image_mset principal_signature (mset (group_detail_list b))
     \<and> image_mset principal_signature (mset (role_detail_list a))
       = image_mset principal_signature (mset (role_detail_list b))"

section \<open>Example inputs\<close>

definition no_exclusions :: Exclusions where
  "no_exclusions = \<lparr>users = [], groups = [], roles = [], policies = []\<rparr>"

definition alice_inherited :: PrincipalPolicyMappingEntry where
  "alice_inherited =
     \<lparr>principal_name = ''alice'', entry_principal_type = ''User'', policy_type = ''Inline'',
      managed_by = ''Customer'', policy_name = ''AdminAccess'',
      comment = Some [''Admins'', ''Devs'']\<rparr>"

definition admins_entry :: PrincipalPolicyMappingEntry where
  "admins_entry =
     \<lparr>principal_name = ''admins'', entry_principal_type = ''Group'', policy_type = ''Inline'',
      managed_by = ''Customer'', policy_name = ''AdminAccess'', comment = Some [''Auditors'']\<rparr>"

definition auditors_entry :: PrincipalPolicyMappingEntry where
  "auditors_entry =
     \<lparr>principal_name = ''auditors'', entry_principal_type = ''Group'', policy_type = ''Inline'',
      managed_by = ''Customer'', policy_name = ''ReadLogs'', comment = None\<rparr>"

definition cascade_mapping :: PrincipalPolicyMapping where
  "cascade_mapping = \<lparr>entries = [alice_inherited, admins_entry, auditors_entry]\<rparr>"

definition example_external :: External where
  "example_external =
     \<lparr>is_policy_excluded = (\<lambda>ex n. lower n \<in> set (policies ex)),
      is_principal_excluded = (\<lambda>p ex. False),
      missing_resource_constraints_for_modify_actions = (\<lambda>s ex. actions s),
      statement_missing_resource_constraints = (\<lambda>s ex. actions s)\<rparr>"

definition put_then_delete :: "Statement list" where
  "put_then_delete =
     [\<lparr>effect = ''Allow'', actions = [''s3:PutObject''], resources = [''*'']\<rparr>,
      \<lparr>effect = ''Allow'', actions = [''s3:DeleteBucket'', ''s3:PutObject''], resources = [''*'']\<rparr>]"

definition bob :: PrincipalDetail where
  "bob =
     \<lparr>name = ''bob'', arn = ''arn:aws:iam::123456789012:user/bob'', principal_type = ''User'',
      inline_principal_policies =
        [\<lparr>policy_PolicyName = ''Storage'', policy_PolicyDocument = put_then_delete\<rparr>],
      attached_managed_policies = [],
      policy_list = [\<lparr>policy_PolicyName = ''Storage'', policy_PolicyDocument = put_then_delete\<rparr>],
      group_member = [''admins''], members = [], assume_role_policy_document = []\<rparr>"

definition admins :: PrincipalDetail where
  "admins =
     \<lparr>name = ''admins'', arn = ''arn:aws:iam::123456789012:group/admins'',
      principal_type = ''Group'', inline_principal_policies = [],
      attached_managed_policies = [], policy_list = [],
      group_member = [], members = [], assume_role_policy_document = []\<rparr>"

definition storage_policy :: PolicyDetail where
  "storage_policy =
     \<lparr>pd_policy_name = ''Storage'', pd_arn = ''arn:aws:iam::123456789012:policy/Storage'',
      pd_full_policy_path = ''/Storage'', pd_policy_document = put_then_delete\<rparr>"

definition small_account :: AuthorizationDetails where
  "small_account =
     \<lparr>policy_details = [storage_policy], user_detail_list = [bob], group_detail_list = [admins],
      role_detail_list = [], findings = new_Findings no_exclusions\<rparr>"

definition dana :: PrincipalDetail where
  "dana =
     \<lparr>name = ''dana'', arn = ''arn:aws:iam::123456789012:user/dana'', principal_type = ''User'',
      inline_principal_policies = [],
      attached_managed_policies =
        [\<lparr>attached_PolicyName = ''ReadOnlyAccess'',
          attached_PolicyArn = ''arn:aws:iam::aws:policy/ReadOnlyAccess''\<rparr>],
      policy_list = [], group_member = [''ops''], members = [],
      assume_role_policy_document = []\<rparr>"

definition Ops :: PrincipalDetail where
  "Ops =
     \<lparr>name = ''Ops'', arn = ''arn:aws:iam::123456789012:group/Ops'', principal_type = ''Group'',
      inline_principal_policies = [\<lparr>policy_PolicyName = ''Deploy'', policy_PolicyDocument = []\<rparr>],
      attached_managed_policies =
        [\<lparr>attached_PolicyName = ''AdministratorAccess'',
          attached_PolicyArn = ''arn:aws:iam::aws:policy/AdministratorAccess''\<rparr>],
      policy_list = [], group_member = [], members = [], assume_role_policy_document = []\<rparr>"

definition ops_account :: AuthorizationDetails where
  "ops_account =
     \<lparr>policy_details = [], user_detail_list = [dana], group_detail_list = [Ops],
      role_detail_list = [], findings = new_Findings no_exclusions\<rparr>"

definition erin :: PrincipalDetail where
  "erin =
     \<lparr>name = ''erin'', arn = ''arn:aws:iam::123456789012:user/erin'', principal_type = ''User'',
      inline_principal_policies = [],
      attached_managed_policies =
        [\<lparr>attached_PolicyName = ''Billing'',
          attached_PolicyArn = ''arn:aws:iam::aws:policy/Billing''\<rparr>,
         \<lparr>attached_PolicyName = ''Billing'',
          attached_PolicyArn = ''arn:aws:iam::123456789012:policy/Billing''\<rparr>],
      policy_list = [], group_member = [], members = [], assume_role_policy_document = []\<rparr>"

definition erin_swapped :: PrincipalDetail where
  "erin_swapped = erin\<lparr>attached_managed_policies := rev (attached_managed_policies erin)\<rparr>"

definition fay :: PrincipalDetail where
  "fay =
     \<lparr>name = ''fay'', arn = ''arn:aws:iam::123456789012:user/fay'', principal_type = ''User'',
      inline_principal_policies = [\<lparr>policy_PolicyName = ''Notes'', policy_PolicyDocument = []\<rparr>],
      attached_managed_policies =
        [\<lparr>attached_PolicyName = ''ReadOnlyAccess'',
          attached_PolicyArn = ''arn:aws:iam::aws:policy/ReadOnlyAccess''\<rparr>,
         \<lparr>attached_PolicyName = ''Billing'',
          attached_PolicyArn = ''arn:aws:iam::123456789012:policy/Billing''\<rparr>],
      policy_list = [], group_member = [''Ops''], members = [], assume_role_policy_document = []\<rparr>"

definition fay_swapped :: PrincipalDetail where
  "fay_swapped = fay\<lparr>attached_managed_policies := rev (attached_managed_policies fay)\<rparr>"

definition account_of :: "PrincipalDetail list \<Rightarrow> PrincipalDetail list \<Rightarrow> AuthorizationDetails" where
  "account_of us gs =
     \<lparr>policy_details = [], user_detail_list = us, group_detail_list = gs,
      role_detail_list = [], findings = new_Findings no_exclusions\<rparr>"

definition admins_plain :: PrincipalPolicyMappingEntry where
  "admins_plain =
     \<lparr>principal_name = ''admins'', entry_principal_type = ''Group'', policy_type = ''Inline'',
      managed_by = ''Customer'', policy_name = ''AdminAccess'', comment = None\<rparr>"

definition team_mapping :: PrincipalPolicyMapping where
  "team_mapping = \<lparr>entries = [alice_inherited, admins_plain, auditors_entry]\<rparr>"

definition zed :: PrincipalDetail where
  "zed =
     \<lparr>name = ''zed'', arn = ''arn:aws:iam::123456789012:user/zed'', principal_type = ''User'',
      inline_principal_policies = [], attached_managed_policies = [], policy_list = [],
      group_member = [''ops'', ''Platform''], members = [], assume_role_policy_document = []\<rparr>"

definition Platform :: PrincipalDetail where
  "Platform =
     \<lparr>name = ''Platform'', arn = ''arn:aws:iam::123456789012:group/Platform'',
      principal_type = ''Group'',
      inline_principal_policies =
        [\<lparr>policy_PolicyName = ''Pipelines'', policy_PolicyDocument = []\<rparr>],
      attached_managed_policies = [], policy_list = [], group_member = [], members = [],
      assume_role_policy_document = []\<rparr>"

definition zed_account :: AuthorizationDetails where
  "zed_account = account_of [zed] [Ops, Platform]"

section \<open>The exclusion filter: user entries\<close>

lemma fold_add_copies:
  "entries (fold (\<lambda>g acc. if P g then add e acc else acc) gs m)
     = entries m @ replicate (length (filter P gs)) e"
  by (induction gs arbitrary: m) (simp_all add: add_def replicate_app_Cons_same)


lemma entries_filter_user_entry:
  "entries (filter_user_entry ex e m) = entries m @ replicate (user_copies ex e) e"
  by (simp add: filter_user_entry_def user_copies_def fold_add_copies)

lemma entries_fold_filter_user_entry:
  "entries (fold (filter_user_entry ex) es m)
     = entries m @ concat (map (\<lambda>e. replicate (user_copies ex e) e) es)"
  by (induction es arbitrary: m) (simp_all add: entries_filter_user_entry)

lemma entries_after_user_stage:
  "entries (after_user_stage ex m)
     = concat (map (\<lambda>e. replicate (user_copies ex e) e) (mapping_users m))"
  by (simp add: after_user_stage_def entries_fold_filter_user_entry)

lemma count_list_replicate:
  "count_list (replicate n x) y = (if x = y then n else 0)"
  by (induction n) auto

lemma count_list_pos: "0 < count_list xs x \<longleftrightarrow> x \<in> set xs"
  using count_list_0_iff [of xs x] by auto

lemma count_list_copies:
  "count_list (concat (map (\<lambda>e. replicate (k e) e) es)) y = count_list es y * k y"
  by (induction es) (simp_all add: count_list_replicate)

lemma count_list_filter:
  "count_list (filter P xs) y = (if P y then count_list xs y else 0)"
  by (induction xs) simp_all

lemma count_after_user_stage:
  "count_list (entries (after_user_stage ex m)) e =
     (if entry_principal_type e = ''User'' then count_list (entries m) e * user_copies ex e else 0)"
  by (simp add: entries_after_user_stage count_list_copies mapping_users_def count_list_filter)

lemma count_filter_group_entry:
  "entry_principal_type g = ''Group'' \<Longrightarrow> entry_principal_type e = ''User'' \<Longrightarrow>
   count_list (entries (filter_group_entry ex g f)) e = count_list (entries f) e"
  by (auto simp add: filter_group_entry_def add_def)

lemma count_fold_filter_group_entry:
  "\<forall>g\<in>set gs. entry_principal_type g = ''Group'' \<Longrightarrow> entry_principal_type e = ''User'' \<Longrightarrow>
   count_list (entries (fold (filter_group_entry ex) gs f)) e = count_list (entries f) e"
  by (induction gs arbitrary: f) (simp_all add: count_filter_group_entry)

lemma count_filter_role_entry:
  "entry_principal_type r = ''Role'' \<Longrightarrow> entry_principal_type e = ''User'' \<Longrightarrow>
   count_list (entries (filter_role_entry ex r f)) e = count_list (entries f) e"
  by (auto simp add: filter_role_entry_def add_def)

lemma count_fold_filter_role_entry:
  "\<forall>r\<in>set rs. entry_principal_type r = ''Role'' \<Longrightarrow> entry_principal_type e = ''User'' \<Longrightarrow>
   count_list (entries (fold (filter_role_entry ex) rs f)) e = count_list (entries f) e"
  by (induction rs arbitrary: f) (simp_all add: count_filter_role_entry)

lemma count_user_entry_output:
  assumes "entry_principal_type e = ''User''"
  shows "count_list
           (entries (fold (filter_role_entry ex) (mapping_roles m) (after_group_stage ex m))) e
         = count_list (entries m) e * user_copies ex e"
proof -
  have "count_list (entries (fold (filter_role_entry ex) (mapping_roles m) (after_group_stage ex m))) e
        = count_list (entries (after_group_stage ex m)) e"
    using assms by (intro count_fold_filter_role_entry) (simp_all add: mapping_roles_def)
  also have "\<dots> = count_list (entries (after_user_stage ex m)) e"
    unfolding after_group_stage_def
    using assms by (intro count_fold_filter_group_entry) (simp_all add: mapping_groups_def)
  also have "\<dots> = count_list (entries m) e * user_copies ex e"
    using assms by (simp add: count_after_user_stage)
  finally show ?thesis .
qed

lemma user_copies_pos:
  "0 < user_copies ex e \<longleftrightarrow>
     lower (principal_name e) \<notin> set (users ex) \<and> lower (policy_name e) \<notin> set (policies ex)
     \<and> (\<exists>g \<in> set (comment_groups e). lower g \<notin> set (groups ex))"
  by (auto simp add: user_copies_def filter_empty_conv)

text \<open>
  C1. A \<open>User\<close> entry is in the output of \<open>get_post_exclusion_principal_policy_mapping\<close> if and
  only if it is an entry of the mapping, the lower-cased user name is not in the excluded
  users, the lower-cased policy name is not in the excluded policies, and its comment holds
  a group whose lower-cased name is not in the excluded groups. An entry whose comment is
  absent or empty is never in the output.
\<close>

theorem C1_user_entry_survives_iff:
  assumes "entry_principal_type e = ''User''"
  shows "\<exists>out. get_post_exclusion_principal_policy_mapping m (ExclusionsObj ex) = Inr out
           \<and> (e \<in> set (entries out) \<longleftrightarrow>
                e \<in> set (entries m)
                \<and> lower (principal_name e) \<notin> set (users ex)
                \<and> lower (policy_name e) \<notin> set (policies ex)
                \<and> (\<exists>c g. comment e = Some c \<and> g \<in> set c \<and> lower g \<notin> set (groups ex)))
           \<and> ((comment e = None \<or> comment e = Some []) \<longrightarrow> e \<notin> set (entries out))"
proof -
  let ?out = "fold (filter_role_entry ex) (mapping_roles m) (after_group_stage ex m)"
  have c: "count_list (entries ?out) e = count_list (entries m) e * user_copies ex e"
    by (rule count_user_entry_output [OF assms])
  have grp: "(\<exists>g \<in> set (comment_groups e). lower g \<notin> set (groups ex))
             \<longleftrightarrow> (\<exists>c g. comment e = Some c \<and> g \<in> set c \<and> lower g \<notin> set (groups ex))"
    by (cases "comment e") (auto simp add: comment_groups_def)
  have "e \<in> set (entries ?out) \<longleftrightarrow> 0 < count_list (entries ?out) e"
    by (simp only: count_list_pos)
  also have "\<dots> \<longleftrightarrow> 0 < count_list (entries m) e \<and> 0 < user_copies ex e"
    by (simp add: c)
  also have "\<dots> \<longleftrightarrow> e \<in> set (entries m) \<and> 0 < user_copies ex e"
    by (simp only: count_list_pos)
  finally have iff: "e \<in> set (entries ?out) \<longleftrightarrow>
      e \<in> set (entries m)
      \<and> lower (principal_name e) \<notin> set (users ex)
      \<and> lower (policy_name e) \<notin> set (policies ex)
      \<and> (\<exists>c g. comment e = Some c \<and> g \<in> set c \<and> lower g \<notin> set (groups ex))"
    by (simp add: user_copies_pos grp)
  have "get_post_exclusion_principal_policy_mapping m (ExclusionsObj ex) = Inr ?out"
    by (simp add: get_post_exclusion_principal_policy_mapping_def)
  moreover have "(comment e = None \<or> comment e = Some []) \<longrightarrow> e \<notin> set (entries ?out)"
    using iff by auto
  ultimately show ?thesis using iff by blast
qed

text \<open>
  C9. A \<open>User\<close> entry whose user name and policy name are not excluded is added once for each
  group of its comment that is not in the excluded groups: the output holds that many
  copies of it for each occurrence in the mapping.
\<close>

theorem C9_user_entry_once_per_group:
  assumes "entry_principal_type e = ''User''"
    and "lower (principal_name e) \<notin> set (users ex)"
    and "lower (policy_name e) \<notin> set (policies ex)"
  shows "\<exists>out. get_post_exclusion_principal_policy_mapping m (ExclusionsObj ex) = Inr out
           \<and> count_list (entries out) e
               = count_list (entries m) e
                 * length (filter (\<lambda>g. lower g \<notin> set (groups ex)) (comment_groups e))"
  using count_user_entry_output [OF assms(1), of ex m] assms(2,3)
  by (simp add: get_post_exclusion_principal_policy_mapping_def user_copies_def)

lemmas filter_simps =
  get_post_exclusion_principal_policy_mapping_def after_group_stage_def after_user_stage_def
  filter_role_entry_def filter_group_entry_def filter_user_entry_def non_excluded_groups_def
  mapping_users_def mapping_groups_def mapping_roles_def comment_groups_def add_def
  lower_def lower_char_def

lemmas example_simps =
  no_exclusions_def alice_inherited_def admins_entry_def auditors_entry_def cascade_mapping_def

text \<open>C1 at the example mapping: the inherited entry of alice survives.\<close>

theorem C1_witness:
  "entry_principal_type alice_inherited = ''User''
   \<and> (\<exists>out. get_post_exclusion_principal_policy_mapping cascade_mapping (ExclusionsObj no_exclusions)
               = Inr out
            \<and> alice_inherited \<in> set (entries out))"
proof -
  have h: "entry_principal_type alice_inherited = ''User''"
    by (simp add: alice_inherited_def)
  from C1_user_entry_survives_iff [OF h, of cascade_mapping no_exclusions]
  obtain out where
    o: "get_post_exclusion_principal_policy_mapping cascade_mapping (ExclusionsObj no_exclusions)
          = Inr out"
    and iff: "alice_inherited \<in> set (entries out) \<longleftrightarrow>
       alice_inherited \<in> set (entries cascade_mapping)
       \<and> lower (principal_name alice_inherited) \<notin> set (users no_exclusions)
       \<and> lower (policy_name alice_inherited) \<notin> set (policies no_exclusions)
       \<and> (\<exists>c g. comment alice_inherited = Some c \<and> g \<in> set c
                 \<and> lower g \<notin> set (groups no_exclusions))"
    by blast
  have "alice_inherited \<in> set (entries out)"
    unfolding iff by (auto simp add: example_simps)
  with h o show ?thesis by blast
qed

text \<open>C9 at the example mapping: two groups are not excluded, two copies are in the output.\<close>

theorem C9_witness:
  "entry_principal_type alice_inherited = ''User''
   \<and> lower (principal_name alice_inherited) \<notin> set (users no_exclusions)
   \<and> lower (policy_name alice_inherited) \<notin> set (policies no_exclusions)
   \<and> (\<exists>out. get_post_exclusion_principal_policy_mapping cascade_mapping (ExclusionsObj no_exclusions)
               = Inr out
            \<and> count_list (entries out) alice_inherited = 2)"
proof -
  have h1: "entry_principal_type alice_inherited = ''User''"
    by (simp add: alice_inherited_def)
  have h2: "lower (principal_name alice_inherited) \<notin> set (users no_exclusions)"
    by (simp add: no_exclusions_def)
  have h3: "lower (policy_name alice_inherited) \<notin> set (policies no_exclusions)"
    by (simp add: no_exclusions_def)
  from C9_user_entry_once_per_group [OF h1 h2 h3, of cascade_mapping]
  obtain out where
    o: "get_post_exclusion_principal_policy_mapping cascade_mapping (ExclusionsObj no_exclusions)
          = Inr out"
    and c: "count_list (entries out) alice_inherited
              = count_list (entries cascade_mapping) alice_inherited
                * length (filter (\<lambda>g. lower g \<notin> set (groups no_exclusions))
                            (comment_groups alice_inherited))"
    by blast
  have "count_list (entries out) alice_inherited = 2"
    unfolding c by (simp add: example_simps comment_groups_def)
  with h1 h2 h3 o show ?thesis by blast
qed

lemma non_excluded_groups_eq:
  "non_excluded_groups f = concat (map (\<lambda>e. map lower (comment_groups e)) (entries f))"
proof -
  have inner: "fold (\<lambda>g acc'. acc' @ [lower g]) gs acc = acc @ map lower gs" for gs acc
    by (induction gs arbitrary: acc) simp_all
  have "fold (\<lambda>user_entry acc.
             if comment_groups user_entry \<noteq> [] then
               fold (\<lambda>g acc'. acc' @ [lower g]) (comment_groups user_entry) acc
             else acc) es acc
        = acc @ concat (map (\<lambda>e. map lower (comment_groups e)) es)" for es acc
    by (induction es arbitrary: acc) (simp_all add: inner)
  then show ?thesis
    by (simp add: non_excluded_groups_def)
qed

lemma fold_filter_group_entry_no_comments:
  assumes "\<forall>g\<in>set gs. comment_groups g = []"
  shows "entries (fold (filter_group_entry ex) gs f)
         = entries f @ filter (\<lambda>g. lower (principal_name g) \<notin> set (groups ex)
                                  \<and> lower (policy_name g) \<notin> set (policies ex)
                                  \<and> lower (principal_name g) \<in> set (non_excluded_groups f)) gs"
  using assms
proof (induction gs arbitrary: f)
  case Nil
  show ?case by simp
next
  case (Cons g gs)
  have n: "non_excluded_groups (filter_group_entry ex g f) = non_excluded_groups f"
    using Cons.prems by (simp add: non_excluded_groups_eq filter_group_entry_def add_def)
  have e: "entries (filter_group_entry ex g f)
           = entries f @ (if lower (principal_name g) \<notin> set (groups ex)
                             \<and> lower (policy_name g) \<notin> set (policies ex)
                             \<and> lower (principal_name g) \<in> set (non_excluded_groups f)
                          then [g] else [])"
    by (simp add: filter_group_entry_def add_def)
  from Cons.prems have "\<forall>g\<in>set gs. comment_groups g = []" by simp
  from Cons.IH [OF this, of "filter_group_entry ex g f"] show ?case
    by (simp add: n e)
qed

lemma entries_fold_filter_role_entry:
  "entries (fold (filter_role_entry ex) rs f)
     = entries f @ filter (\<lambda>r. lower (principal_name r) \<notin> set (roles ex)
                              \<and> lower (policy_name r) \<notin> set (policies ex)) rs"
  by (induction rs arbitrary: f) (simp_all add: filter_role_entry_def add_def)

lemma after_user_stage_only_users:
  "u \<in> set (entries (after_user_stage ex m)) \<Longrightarrow> entry_principal_type u = ''User''"
  by (auto simp add: entries_after_user_stage mapping_users_def)

text \<open>
  C2. In a mapping whose group entries carry no comment, a \<open>Group\<close> entry is in the output of
  \<open>get_post_exclusion_principal_policy_mapping\<close> if and only if it is an entry of the mapping,
  its lower-cased name is not in the excluded groups, its lower-cased policy name is not in
  the excluded policies, and its lower-cased name is the lower-cased name of a group in the
  comment of a \<open>User\<close> entry of the output. The \<open>User\<close> entries of the output are those that
  survived the user loop, so a group none of whose members' entries survived is left out.
\<close>

theorem C2_group_entry_survives_iff:
  assumes c: "\<forall>g\<in>set (entries m). entry_principal_type g = ''Group'' \<longrightarrow> comment_groups g = []"
    and t: "entry_principal_type e = ''Group''"
  shows "\<exists>out. get_post_exclusion_principal_policy_mapping m (ExclusionsObj ex) = Inr out
           \<and> (e \<in> set (entries out) \<longleftrightarrow>
                e \<in> set (entries m)
                \<and> lower (principal_name e) \<notin> set (groups ex)
                \<and> lower (policy_name e) \<notin> set (policies ex)
                \<and> (\<exists>u\<in>set (entries out). entry_principal_type u = ''User''
                      \<and> lower (principal_name e) \<in> set (map lower (comment_groups u))))
           \<and> (\<forall>u. u \<in> set (entries out) \<and> entry_principal_type u = ''User''
                    \<longleftrightarrow> u \<in> set (entries (after_user_stage ex m)))"
proof -
  let ?out = "fold (filter_role_entry ex) (mapping_roles m) (after_group_stage ex m)"
  let ?G = "filter (\<lambda>g. lower (principal_name g) \<notin> set (groups ex)
                         \<and> lower (policy_name g) \<notin> set (policies ex)
                         \<and> lower (principal_name g)
                             \<in> set (non_excluded_groups (after_user_stage ex m)))
                   (mapping_groups m)"
  let ?R = "filter (\<lambda>r. lower (principal_name r) \<notin> set (roles ex)
                         \<and> lower (policy_name r) \<notin> set (policies ex)) (mapping_roles m)"
  have c': "\<forall>g\<in>set (mapping_groups m). comment_groups g = []"
    using c by (simp add: mapping_groups_def)
  have out: "entries ?out = entries (after_user_stage ex m) @ ?G @ ?R"
    by (simp add: entries_fold_filter_role_entry after_group_stage_def
        fold_filter_group_entry_no_comments [OF c'])
  have users: "u \<in> set (entries ?out) \<and> entry_principal_type u = ''User''
               \<longleftrightarrow> u \<in> set (entries (after_user_stage ex m))" for u
    unfolding out
    by (auto simp add: mapping_groups_def mapping_roles_def dest: after_user_stage_only_users)
  have neg: "lower (principal_name e) \<in> set (non_excluded_groups (after_user_stage ex m))
             \<longleftrightarrow> (\<exists>u\<in>set (entries ?out). entry_principal_type u = ''User''
                    \<and> lower (principal_name e) \<in> set (map lower (comment_groups u)))"
    using users by (auto simp add: non_excluded_groups_eq)
  have "e \<in> set (entries ?out) \<longleftrightarrow> e \<in> set ?G"
    unfolding out using t
    by (auto simp add: mapping_roles_def dest: after_user_stage_only_users)
  also have "\<dots> \<longleftrightarrow> e \<in> set (entries m)
                \<and> lower (principal_name e) \<notin> set (groups ex)
                \<and> lower (policy_name e) \<notin> set (policies ex)
                \<and> lower (principal_name e) \<in> set (non_excluded_groups (after_user_stage ex m))"
    using t by (auto simp add: mapping_groups_def)
  finally have iff: "e \<in> set (entries ?out) \<longleftrightarrow>
                e \<in> set (entries m)
                \<and> lower (principal_name e) \<notin> set (groups ex)
                \<and> lower (policy_name e) \<notin> set (policies ex)
                \<and> (\<exists>u\<in>set (entries ?out). entry_principal_type u = ''User''
                      \<and> lower (principal_name e) \<in> set (map lower (comment_groups u)))"
    by (simp only: neg)
  have "get_post_exclusion_principal_policy_mapping m (ExclusionsObj ex) = Inr ?out"
    by (simp add: get_post_exclusion_principal_policy_mapping_def)
  with iff users show ?thesis by blast
qed

text \<open>
  C2 at an example mapping: alice names the groups \<open>Admins\<close> and \<open>Devs\<close>; the entry of group
  \<open>admins\<close> is in the output and the entry of group \<open>auditors\<close> is not.
\<close>

theorem C2_witness:
  "\<exists>out. get_post_exclusion_principal_policy_mapping team_mapping (ExclusionsObj no_exclusions)
            = Inr out
        \<and> admins_plain \<in> set (entries out)
        \<and> auditors_entry \<notin> set (entries out)"
proof -
  have e: "get_post_exclusion_principal_policy_mapping team_mapping (ExclusionsObj no_exclusions)
             = Inr \<lparr>entries = [alice_inherited, alice_inherited, admins_plain]\<rparr>"
    by (simp add: filter_simps example_simps admins_plain_def team_mapping_def)
  have c: "\<forall>g\<in>set (entries team_mapping).
             entry_principal_type g = ''Group'' \<longrightarrow> comment_groups g = []"
    by (simp add: team_mapping_def example_simps admins_plain_def comment_groups_def)
  have t1: "entry_principal_type admins_plain = ''Group''"
    by (simp add: admins_plain_def)
  have t2: "entry_principal_type auditors_entry = ''Group''"
    by (simp add: auditors_entry_def)
  from C2_group_entry_survives_iff [OF c t1, of no_exclusions] e
  have 1: "admins_plain \<in> set (entries \<lparr>entries = [alice_inherited, alice_inherited, admins_plain]\<rparr>)
        \<longleftrightarrow> admins_plain \<in> set (entries team_mapping)
                \<and> lower (principal_name admins_plain) \<notin> set (groups no_exclusions)
                \<and> lower (policy_name admins_plain) \<notin> set (policies no_exclusions)
                \<and> (\<exists>u\<in>set (entries \<lparr>entries = [alice_inherited, alice_inherited, admins_plain]\<rparr>).
                      entry_principal_type u = ''User''
                      \<and> lower (principal_name admins_plain) \<in> set (map lower (comment_groups u)))"
    by auto
  from C2_group_entry_survives_iff [OF c t2, of no_exclusions] e
  have 2: "auditors_entry \<in> set (entries \<lparr>entries = [alice_inherited, alice_inherited, admins_plain]\<rparr>)
        \<longleftrightarrow> auditors_entry \<in> set (entries team_mapping)
                \<and> lower (principal_name auditors_entry) \<notin> set (groups no_exclusions)
                \<and> lower (policy_name auditors_entry) \<notin> set (policies no_exclusions)
                \<and> (\<exists>u\<in>set (entries \<lparr>entries = [alice_inherited, alice_inherited, admins_plain]\<rparr>).
                      entry_principal_type u = ''User''
                      \<and> lower (principal_name auditors_entry) \<in> set (map lower (comment_groups u)))"
    by auto
  have a: "admins_plain \<in> set (entries \<lparr>entries = [alice_inherited, alice_inherited, admins_plain]\<rparr>)"
    unfolding 1
    by (intro conjI bexI [of _ alice_inherited])
       (simp_all add: team_mapping_def example_simps admins_plain_def comment_groups_def
        lower_def lower_char_def)
  have b: "auditors_entry \<notin> set (entries \<lparr>entries = [alice_inherited, alice_inherited, admins_plain]\<rparr>)"
    unfolding 2
    by (auto simp add: team_mapping_def example_simps admins_plain_def comment_groups_def
        lower_def lower_char_def)
  from e a b show ?thesis by blast
qed

section \<open>The scan engine: arguments, membership resolution, actions\<close>

lemmas scan_simps =
  missing_resource_constraints_def scan_principal_type_details_def scan_policy_details_def
  scan_principal_def scan_principal_policy_def scan_policy_def collect_actions_def
  collect_groups_def resolve_members_def groups_append_def
  new_Findings_def add_user_finding_def add_group_finding_def add_role_finding_def
  add_policy_finding_def findings_json_def dict_fromkeys_def Let_def

lemmas mapping_simps =
  principal_policy_mapping_def unsorted_principal_policy_mapping_def principal_entries_def
  group_inherited_entries_def policy_entries_def inline_entry_def managed_entry_def
  mapping_key_def principals_def aws_arn_def

lemmas account_simps =
  example_external_def put_then_delete_def bob_def admins_def storage_policy_def
  small_account_def no_exclusions_def

text \<open>
  C7. Given an argument that is not an \<open>Exclusions\<close> instance, each of the three scanning
  operations raises the exception and returns the object (and the list of principals it was
  given) as it was; the mapping filter raises an exception and builds nothing.
\<close>

theorem C7_invalid_exclusions_rejected:
  "missing_resource_constraints X (OtherObj v) modify_only self = (Inl invalid_exclusions, self)
   \<and> scan_policy_details X (OtherObj v) modify_only self = (Inl invalid_exclusions, self)
   \<and> scan_principal_type_details X ps (OtherObj v) modify_only self
        = (Inl invalid_exclusions, ps, self)
   \<and> (\<exists>msg. get_post_exclusion_principal_policy_mapping m (OtherObj v) = Inl (Exception msg))"
  by (simp add: missing_resource_constraints_def scan_policy_details_def
      scan_principal_type_details_def get_post_exclusion_principal_policy_mapping_def)

lemma collect_groups_no_Users:
  "\<forall>p\<in>set ps. principal_type p \<noteq> ''Users'' \<Longrightarrow> fold (\<lambda>prin d.
             if principal_type prin = ''Users'' then
               if group_member prin \<noteq> [] then
                 fold (\<lambda>grp d'. groups_append grp (name prin) d') (group_member prin) d
               else d
             else d) ps d0 = d0"
  by (induction ps arbitrary: d0) simp_all

lemma resolve_members_not_Groups:
  "principal_type p \<noteq> ''Groups'' \<Longrightarrow> resolve_members d p = p"
  by (simp add: resolve_members_def)

lemma resolution_never_runs:
  assumes "\<forall>p\<in>set ps. principal_type p \<in> {''User'', ''Group'', ''Role''}"
  shows "fst (snd (scan_principal_type_details X ps (ExclusionsObj ex) modify_only self)) = ps"
proof -
  have "map (resolve_members (collect_groups ps)) ps = ps"
    using assms by (intro map_idI resolve_members_not_Groups) auto
  then show ?thesis
    by (simp add: scan_principal_type_details_def Let_def)
qed

text \<open>
  C3. The membership resolution tests the principal type against \<open>"Users"\<close> and \<open>"Groups"\<close>,
  while the principals carry \<open>"User"\<close>, \<open>"Group"\<close> and \<open>"Role"\<close>. In the example account bob
  declares the group \<open>admins\<close>; after the scan, and after a scan of the list that holds both,
  the members of \<open>admins\<close> are still empty.
\<close>

theorem C3_members_stay_empty:
  "map members
     (group_detail_list
        (snd (missing_resource_constraints example_external (ExclusionsObj no_exclusions) True
                small_account))) = [Nil]
   \<and> map members
       (fst (snd (scan_principal_type_details example_external [bob, admins]
                    (ExclusionsObj no_exclusions) True small_account))) = [Nil, Nil]
   \<and> group_member bob = [''admins''] \<and> name admins = ''admins''"
  by (simp add: scan_simps mapping_simps account_simps)

text \<open>
  C4. For a principal the accumulated actions go into the finding as they are: the finding
  of bob repeats \<open>s3:PutObject\<close> and is not sorted. \<open>scan_policy_details\<close> removes the
  duplicates and sorts the actions of the same document.
\<close>

theorem C4_principal_actions_not_deduplicated:
  "map finding_actions
     (user_findings (findings
        (snd (missing_resource_constraints example_external (ExclusionsObj no_exclusions) True
                small_account))))
     = [''s3:PutObject'', ''s3:DeleteBucket'', ''s3:PutObject''] # []
   \<and> map finding_actions
     (policy_findings (findings
        (snd (missing_resource_constraints example_external (ExclusionsObj no_exclusions) True
                small_account))))
     = [''s3:DeleteBucket'', ''s3:PutObject''] # []"
  by (simp add: scan_simps mapping_simps account_simps)

section \<open>The classifier\<close>

lemma fold_append_if:
  "fold (\<lambda>x acc. if P x then acc @ [f x] else acc) xs acc0 = acc0 @ map f (filter P xs)"
  by (induction xs arbitrary: acc0) simp_all

lemma attached_names_eq:
  "attached_names wanted ps acc0 = acc0 @ classified_names wanted ps"
  unfolding attached_names_def classified_names_def
  by (induction ps arbitrary: acc0) (simp_all add: fold_append_if)

lemma standalone_names_eq:
  "standalone_names wanted ps = classified_standalone wanted ps"
  by (simp add: standalone_names_def classified_standalone_def fold_append_if)

lemma dict_fromkeys_snoc:
  "dict_fromkeys (xs @ [x]) =
     (if x \<in> set (dict_fromkeys xs) then dict_fromkeys xs else dict_fromkeys xs @ [x])"
  by (simp add: dict_fromkeys_def)

lemma dict_fromkeys_first_occurrence: "dict_fromkeys xs = rev (remdups (rev xs))"
proof (induction xs rule: rev_induct)
  case Nil
  show ?case by (simp add: dict_fromkeys_def)
next
  case (snoc x xs)
  have "set (dict_fromkeys xs) = set xs"
    by (simp add: snoc.IH)
  then show ?case
    by (simp add: dict_fromkeys_snoc snoc.IH)
qed

lemma distinct_dict_fromkeys: "distinct (dict_fromkeys xs)"
  by (simp add: dict_fromkeys_first_occurrence)

lemma set_dict_fromkeys: "set (dict_fromkeys xs) = set xs"
  by (simp add: dict_fromkeys_first_occurrence)

text \<open>
  C8, in the order the code has. Each of the two lists is built from the standalone policies, then the
  attached managed policies of every group, then of every user, then of every role, each
  classified by the test for \<open>arn:aws:iam::aws:\<close> in its ARN, and is then deduplicated
  keeping the first occurrence of each name, in insertion order.
\<close>

theorem C8_classifier_groups_before_users:
  "aws_managed_policies_in_use self =
     dict_fromkeys (classified_standalone aws_arn (policy_details self)
                    @ classified_names aws_arn (group_detail_list self)
                    @ classified_names aws_arn (user_detail_list self)
                    @ classified_names aws_arn (role_detail_list self))
   \<and> customer_managed_policies_in_use self =
     dict_fromkeys (classified_standalone (\<lambda>a. \<not> aws_arn a) (policy_details self)
                    @ classified_names (\<lambda>a. \<not> aws_arn a) (group_detail_list self)
                    @ classified_names (\<lambda>a. \<not> aws_arn a) (user_detail_list self)
                    @ classified_names (\<lambda>a. \<not> aws_arn a) (role_detail_list self))
   \<and> (\<forall>xs :: string list.
         dict_fromkeys xs = rev (remdups (rev xs)) \<and> distinct (dict_fromkeys xs)
         \<and> set (dict_fromkeys xs) = set xs)"
  by (simp add: aws_managed_policies_in_use_def customer_managed_policies_in_use_def
      attached_names_eq standalone_names_eq distinct_dict_fromkeys set_dict_fromkeys
      dict_fromkeys_first_occurrence [symmetric])

text \<open>
  C8 with users before groups does not hold: in that order the example account would give
  \<open>ReadOnlyAccess\<close> first; the classifier gives \<open>AdministratorAccess\<close> first.
\<close>

theorem C8_users_first_counterexample:
  "aws_managed_policies_in_use ops_account = [''AdministratorAccess'', ''ReadOnlyAccess'']
   \<and> spec_order_names aws_arn ops_account = [''ReadOnlyAccess'', ''AdministratorAccess'']
   \<and> aws_managed_policies_in_use ops_account \<noteq> spec_order_names aws_arn ops_account"
  by (simp add: aws_managed_policies_in_use_def spec_order_names_def attached_names_def
      standalone_names_def dict_fromkeys_def aws_arn_def ops_account_def dana_def Ops_def)

lemma policy_entries_eq:
  "policy_entries p owner gm acc0 =
     acc0 @ map (\<lambda>ip. inline_entry p ip gm) (inline_principal_policies owner)
          @ map (\<lambda>a. managed_entry p a gm) (attached_managed_policies owner)"
proof -
  have f: "\<And>g xs acc. fold (\<lambda>x acc. acc @ [g x]) xs acc = acc @ map g xs"
    subgoal for g xs acc by (induction xs arbitrary: acc) simp_all
    done
  show ?thesis by (simp add: policy_entries_def f Let_def)
qed

section \<open>The mapping builder in closed form; the membership resolution\<close>

lemma policy_entries_own: "policy_entries p owner gm acc0 = acc0 @ own_entries p owner gm"
  by (simp add: policy_entries_eq own_entries_def)

lemma inner_group_loop_eq:
  "fold (\<lambda>some_principal acc'.
           if principal_type some_principal = ''Group'' \<and> name some_principal = gm
           then policy_entries p some_principal c acc' else acc') ps acc
   = acc @ concat (map (\<lambda>sp. if principal_type sp = ''Group'' \<and> name sp = gm
                              then own_entries p sp c else []) ps)"
  by (induction ps arbitrary: acc) (simp_all add: policy_entries_own)

lemma group_inherited_entries_eq:
  "group_inherited_entries all_principals p acc = acc @ inherited_entries all_principals p"
proof -
  have "fold (\<lambda>group_membership acc.
           fold (\<lambda>some_principal acc'.
                   if principal_type some_principal = ''Group''
                      \<and> name some_principal = group_membership
                   then policy_entries p some_principal c acc' else acc')
                all_principals acc) gms acc
        = acc @ concat (map (\<lambda>gm.
            concat (map (\<lambda>sp. if principal_type sp = ''Group'' \<and> name sp = gm
                               then own_entries p sp c else []) all_principals)) gms)"
    for c gms
    by (induction gms arbitrary: acc) (simp_all add: inner_group_loop_eq)
  then show ?thesis
    by (simp add: group_inherited_entries_def inherited_entries_def)
qed

lemma principal_entries_eq:
  "principal_entries all_principals p acc = acc @ entries_of all_principals p"
  by (simp add: principal_entries_def entries_of_def policy_entries_own
      group_inherited_entries_eq Let_def)

lemma fold_principal_entries:
  "fold (principal_entries all_principals) ps acc
     = acc @ concat (map (entries_of all_principals) ps)"
  by (induction ps arbitrary: acc) (simp_all add: principal_entries_eq)

lemma unsorted_mapping_eq:
  "unsorted_principal_policy_mapping self
     = concat (map (entries_of (principals self)) (principals self))"
  by (simp add: unsorted_principal_policy_mapping_def fold_principal_entries)

lemma own_entries_forget:
  "own_entries (forget_members p) (forget_members owner) gm = own_entries p owner gm"
  by (simp add: own_entries_def forget_members_def inline_entry_def managed_entry_def)

lemma inherited_entries_forget:
  "inherited_entries (map forget_members ps) (forget_members p) = inherited_entries ps p"
proof -
  have g: "group_member (forget_members p) = group_member p"
    and t: "\<And>sp. principal_type (forget_members sp) = principal_type sp"
    and n: "\<And>sp. name (forget_members sp) = name sp"
    by (simp_all add: forget_members_def)
  show ?thesis
    by (simp add: inherited_entries_def g t n own_entries_forget comp_def cong: if_cong)
qed

lemma entries_of_forget:
  "entries_of (map forget_members ps) (forget_members p) = entries_of ps p"
proof -
  have t: "principal_type (forget_members p) = principal_type p"
    by (simp add: forget_members_def)
  show ?thesis
    by (simp add: entries_of_def t own_entries_forget inherited_entries_forget)
qed

lemma unsorted_mapping_forget:
  "unsorted_principal_policy_mapping self
     = concat (map (entries_of (map forget_members (principals self)))
                   (map forget_members (principals self)))"
  by (simp add: unsorted_mapping_eq comp_def entries_of_forget)

lemma mapping_ignores_members:
  assumes "map forget_members (principals s') = map forget_members (principals s)"
  shows "principal_policy_mapping s' = principal_policy_mapping s"
  by (simp add: principal_policy_mapping_def unsorted_mapping_forget assms)

lemma resolve_members_fold:
  "fold (\<lambda>(grp, names) p. if c grp then p\<lparr>members := members p @ names\<rparr> else p) d q
     = q\<lparr>members := members q @ concat (map snd (filter (\<lambda>(grp, names). c grp) d))\<rparr>"
  by (induction d arbitrary: q) (auto split: prod.splits)

lemma resolve_members_eq:
  "resolve_members d p =
     (if principal_type p = ''Groups''
      then p\<lparr>members := members p
                @ concat (map snd (filter (\<lambda>(grp, names). lower grp = lower (name p)) d))\<rparr>
      else p)"
  by (simp add: resolve_members_def resolve_members_fold)

lemma forget_resolve_members: "forget_members (resolve_members d p) = forget_members p"
  by (simp add: resolve_members_eq forget_members_def)

lemma scan_principal_policy_other_type:
  "principal_type p \<notin> {''User'', ''Group'', ''Role''} \<Longrightarrow>
   scan_principal_policy X ex modify_only p policy fs = fs"
  by (simp add: scan_principal_policy_def Let_def)

lemma scan_principal_other_type:
  assumes "principal_type p \<notin> {''User'', ''Group'', ''Role''}"
  shows "scan_principal X ex modify_only p fs = fs"
proof -
  have "fold (scan_principal_policy X ex modify_only p) ps fs = fs" for ps
    by (induction ps) (simp_all add: scan_principal_policy_other_type [OF assms])
  then show ?thesis by (simp add: scan_principal_def)
qed

lemma scan_principal_resolved:
  "scan_principal X ex modify_only (resolve_members d p) fs = scan_principal X ex modify_only p fs"
proof (cases "principal_type p = ''Groups''")
  case True
  then have "principal_type (resolve_members d p) = ''Groups''"
    by (simp add: resolve_members_eq)
  then have "scan_principal X ex modify_only (resolve_members d p) fs = fs"
    by (intro scan_principal_other_type) simp
  moreover have "scan_principal X ex modify_only p fs = fs"
    using True by (intro scan_principal_other_type) simp
  ultimately show ?thesis by simp
next
  case False
  then show ?thesis by (simp add: resolve_members_eq)
qed

lemma fold_scan_principal_resolved:
  "fold (scan_principal X ex modify_only) (map (resolve_members d) ps) fs
     = fold (scan_principal X ex modify_only) ps fs"
  by (induction ps arbitrary: fs) (simp_all add: scan_principal_resolved)

section \<open>Scanning twice\<close>

lemma scan_principal_type_details_eq:
  "scan_principal_type_details X ps (ExclusionsObj ex) modify_only s =
     (Inr (), map (resolve_members (collect_groups ps)) ps,
      s\<lparr>findings := fold (scan_principal X ex modify_only) ps (findings s)\<rparr>)"
  by (simp add: scan_principal_type_details_def Let_def fold_scan_principal_resolved)

lemma scan_policy_details_eq:
  "scan_policy_details X (ExclusionsObj ex) modify_only s =
     (Inr (), s\<lparr>findings := fold (scan_policy X ex modify_only) (policy_details s) (findings s)\<rparr>)"
  by (simp add: scan_policy_details_def)

lemma map_forget_resolved:
  "map forget_members (map (resolve_members d) ps) = map forget_members ps"
  by (simp add: forget_resolve_members)

lemma missing_resource_constraints_result:
  "fst (missing_resource_constraints X (ExclusionsObj ex) modify_only self)
     = Inr (findings_json (scan_findings X ex modify_only self))"
  apply (simp add: missing_resource_constraints_def scan_principal_type_details_eq
      scan_policy_details_eq Let_def scan_findings_def)
  apply (subst mapping_ignores_members [where s = self])
   apply (simp_all add: principals_def forget_resolve_members)
  done

lemma missing_resource_constraints_state:
  "policy_details (snd (missing_resource_constraints X (ExclusionsObj ex) modify_only self))
     = policy_details self"
  "user_detail_list (snd (missing_resource_constraints X (ExclusionsObj ex) modify_only self))
     = map (resolve_members (collect_groups (user_detail_list self))) (user_detail_list self)"
  "group_detail_list (snd (missing_resource_constraints X (ExclusionsObj ex) modify_only self))
     = map (resolve_members (collect_groups (group_detail_list self))) (group_detail_list self)"
  "role_detail_list (snd (missing_resource_constraints X (ExclusionsObj ex) modify_only self))
     = map (resolve_members (collect_groups (role_detail_list self))) (role_detail_list self)"
  by (simp_all add: missing_resource_constraints_def scan_principal_type_details_eq
      scan_policy_details_eq Let_def)

lemma scan_findings_after_scan:
  "scan_findings X ex modify_only
     (snd (missing_resource_constraints X (ExclusionsObj ex') modify_only' self))
   = scan_findings X ex modify_only self"
proof -
  let ?s = "snd (missing_resource_constraints X (ExclusionsObj ex') modify_only' self)"
  have "map forget_members (principals ?s) = map forget_members (principals self)"
    by (simp add: principals_def missing_resource_constraints_state forget_resolve_members)
  then have "principal_policy_mapping ?s = principal_policy_mapping self"
    by (rule mapping_ignores_members)
  then show ?thesis
    by (simp add: scan_findings_def missing_resource_constraints_state
        fold_scan_principal_resolved)
qed

text \<open>
  C6. Calling \<open>missing_resource_constraints\<close> a second time with the same arguments, on the
  object as the first call left it, returns the same result as the first call: the
  aggregator is replaced at the start of the call, and what the first call wrote into the
  principals (their \<open>members\<close>) does not reach the findings or the mapping.
\<close>

theorem C6_scan_twice_same_output:
  "fst (missing_resource_constraints X exclusions modify_only
          (snd (missing_resource_constraints X exclusions modify_only self)))
     = fst (missing_resource_constraints X exclusions modify_only self)"
proof (cases exclusions)
  case (ExclusionsObj ex)
  then show ?thesis
    by (simp add: missing_resource_constraints_result scan_findings_after_scan)
next
  case (OtherObj v)
  then show ?thesis
    by (simp add: missing_resource_constraints_def)
qed

section \<open>The order of the mapping\<close>

lemma mset_concat_map: "mset (concat (map f xs)) = (\<Sum>x\<in>#mset xs. mset (f x))"
  by (induction xs) simp_all

lemma sum_mset_through_signature:
  fixes f f' :: "'a \<Rightarrow> 'b multiset" and g :: "'a \<Rightarrow> 'c"
  assumes M: "image_mset g M = image_mset g M'"
    and c: "\<And>x y. g x = g y \<Longrightarrow> f x = f' y"
  shows "(\<Sum>x\<in>#M. f x) = (\<Sum>y\<in>#M'. f' y)"
proof -
  define F where "F s = f' (SOME y. g y = s)" for s
  have rep: "g (SOME y. g y = g x) = g x" for x
    by (rule someI [of "\<lambda>y. g y = g x" x]) simp
  have fF: "f x = F (g x)" for x
    unfolding F_def using c [of x "SOME y. g y = g x"] rep [of x] by simp
  have f'F: "f' y = F (g y)" for y
  proof -
    have "f y = f' y" by (rule c) simp
    then show ?thesis using fF [of y] by simp
  qed
  have "(\<Sum>x\<in>#M. f x) = (\<Sum>s\<in>#image_mset g M. F s)"
    by (simp add: fF image_mset.compositionality comp_def)
  also have "\<dots> = (\<Sum>s\<in>#image_mset g M'. F s)"
    by (simp add: M)
  also have "\<dots> = (\<Sum>y\<in>#M'. f' y)"
    by (simp add: f'F image_mset.compositionality comp_def)
  finally show ?thesis .
qed

lemma mset_own_entries:
  assumes "principal_signature p = principal_signature p'"
    and "principal_signature owner = principal_signature owner'"
  shows "mset (own_entries p owner gm) = mset (own_entries p' owner' gm)"
proof -
  have i: "(\<lambda>ip. inline_entry p ip gm) = (\<lambda>ip. inline_entry p' ip gm)"
    and m: "(\<lambda>a. managed_entry p a gm) = (\<lambda>a. managed_entry p' a gm)"
    using assms(1)
    by (auto simp add: principal_signature_def inline_entry_def managed_entry_def)
  have "mset (inline_principal_policies owner) = mset (inline_principal_policies owner')"
    and "mset (attached_managed_policies owner) = mset (attached_managed_policies owner')"
    using assms(2) by (simp_all add: principal_signature_def)
  then show ?thesis
    unfolding own_entries_def mset_append mset_map i m by simp
qed

lemma mset_inherited_entries:
  assumes p: "principal_signature p = principal_signature p'"
    and M: "image_mset principal_signature (mset ps) = image_mset principal_signature (mset ps')"
  shows "mset (inherited_entries ps p) = mset (inherited_entries ps' p')"
proof -
  have g: "group_member p' = group_member p"
    using p by (simp add: principal_signature_def)
  have inner: "(\<Sum>sp\<in>#mset ps. mset (if principal_type sp = ''Group'' \<and> name sp = gm
                           then own_entries p sp (Some (group_member p)) else []))
             = (\<Sum>sp\<in>#mset ps'. mset (if principal_type sp = ''Group'' \<and> name sp = gm
                           then own_entries p' sp (Some (group_member p)) else []))" for gm
  proof (rule sum_mset_through_signature [OF M])
    fix x y
    assume xy: "principal_signature x = principal_signature y"
    then have "principal_type x = principal_type y" "name x = name y"
      by (simp_all add: principal_signature_def)
    then show "mset (if principal_type x = ''Group'' \<and> name x = gm
                 then own_entries p x (Some (group_member p)) else [])
             = mset (if principal_type y = ''Group'' \<and> name y = gm
                 then own_entries p' y (Some (group_member p)) else [])"
      using mset_own_entries [OF p xy] by simp
  qed
  show ?thesis
    by (simp add: inherited_entries_def mset_concat_map g inner
        image_mset.compositionality comp_def cong: if_cong)
qed

lemma mset_entries_of:
  assumes p: "principal_signature p = principal_signature p'"
    and M: "image_mset principal_signature (mset ps) = image_mset principal_signature (mset ps')"
  shows "mset (entries_of ps p) = mset (entries_of ps' p')"
proof -
  have t: "principal_type p' = principal_type p"
    using p by (simp add: principal_signature_def)
  show ?thesis
    by (simp add: entries_of_def t mset_own_entries [OF p p] mset_inherited_entries [OF p M])
qed

lemma signatures_of_principals:
  "same_up_to_order a b \<Longrightarrow>
   image_mset principal_signature (mset (principals a))
     = image_mset principal_signature (mset (principals b))"
  by (simp add: same_up_to_order_def principals_def)

lemma mset_unsorted_mapping:
  assumes "same_up_to_order a b"
  shows "mset (unsorted_principal_policy_mapping b) = mset (unsorted_principal_policy_mapping a)"
proof -
  note M = signatures_of_principals [OF assms]
  have "(\<Sum>p\<in>#mset (principals b). mset (entries_of (principals b) p))
        = (\<Sum>p\<in>#mset (principals a). mset (entries_of (principals a) p))"
    by (rule sum_mset_through_signature [OF M [symmetric]])
       (rule mset_entries_of [OF _ M [symmetric]])
  then show ?thesis
    by (simp add: unsorted_mapping_eq mset_concat_map)
qed

lemma sorted_keys_unique:
  fixes xs ys :: "'a list" and k :: "'a \<Rightarrow> 'b::linorder"
  assumes "mset xs = mset ys" "sorted (map k xs)" "sorted (map k ys)"
  shows "map k xs = map k ys"
proof -
  have "mset (map k xs) = mset (map k ys)"
    using assms(1) by simp
  then show ?thesis
    using assms(2,3) by (metis properties_for_sort)
qed

lemma same_keys_distinct_same_list:
  assumes m: "mset xs = mset ys" and k: "map k xs = map k ys" and d: "distinct (map k xs)"
  shows "xs = ys"
proof -
  have "inj_on k (set xs)"
    using d by (simp add: distinct_map)
  moreover have "set ys = set xs"
    using m by (metis set_mset_mset)
  ultimately have "inj_on k (set xs \<union> set ys)"
    by simp
  then show ?thesis
    using k by (simp add: inj_on_map_eq_map)
qed

text \<open>
  C5, up to entries with equal keys. The mapping is sorted by the key (type, principal name, policy type,
  policy name), and so is the \<open>json\<close> of a \<open>PrincipalPolicyMapping\<close>. Permuting the principals
  or the policies of the account changes neither the multiset of the entries nor the
  sequence of their keys; when no two entries share a key, it does not change the mapping.
\<close>

theorem C5_mapping_sorted_and_order_independent:
  "sorted (map mapping_key (principal_policy_mapping a))
   \<and> sorted (map json_key (mapping_json m))
   \<and> (same_up_to_order a b \<longrightarrow>
        mset (principal_policy_mapping b) = mset (principal_policy_mapping a)
        \<and> map mapping_key (principal_policy_mapping b)
            = map mapping_key (principal_policy_mapping a)
        \<and> (distinct (map mapping_key (principal_policy_mapping a)) \<longrightarrow>
             principal_policy_mapping b = principal_policy_mapping a))"
proof (intro conjI impI)
  show sa: "sorted (map mapping_key (principal_policy_mapping a))"
    by (simp add: principal_policy_mapping_def)
  show "sorted (map json_key (mapping_json m))"
    by (simp add: mapping_json_def)
  assume s: "same_up_to_order a b"
  show ms: "mset (principal_policy_mapping b) = mset (principal_policy_mapping a)"
    by (simp add: principal_policy_mapping_def mset_unsorted_mapping [OF s])
  have sb: "sorted (map mapping_key (principal_policy_mapping b))"
    by (simp add: principal_policy_mapping_def)
  show ks: "map mapping_key (principal_policy_mapping b)
              = map mapping_key (principal_policy_mapping a)"
    by (rule sorted_keys_unique [OF ms sb sa])
  assume "distinct (map mapping_key (principal_policy_mapping a))"
  then have "distinct (map mapping_key (principal_policy_mapping b))"
    by (simp add: ks)
  then show "principal_policy_mapping b = principal_policy_mapping a"
    by (rule same_keys_distinct_same_list [OF ms ks])
qed

lemmas person_simps = erin_def erin_swapped_def fay_def fay_swapped_def dana_def Ops_def
  account_of_def

text \<open>
  C5 does not hold for entries with equal keys: erin has two attached managed policies of the same name, one managed
  by AWS and one by the customer. The sort is stable and the two entries share a key, so
  swapping the two policies in the input swaps the two entries of the mapping.
\<close>

theorem C5_equal_keys_counterexample:
  "same_up_to_order (account_of [erin] []) (account_of [erin_swapped] [])
   \<and> map ManagedBy (principal_policy_mapping (account_of [erin] [])) = [''AWS'', ''Customer'']
   \<and> map ManagedBy (principal_policy_mapping (account_of [erin_swapped] []))
        = [''Customer'', ''AWS'']
   \<and> principal_policy_mapping (account_of [erin] [])
        \<noteq> principal_policy_mapping (account_of [erin_swapped] [])"
proof -
  have 1: "same_up_to_order (account_of [erin] []) (account_of [erin_swapped] [])"
    by (simp add: same_up_to_order_def principal_signature_def person_simps)
  have 2: "map ManagedBy (principal_policy_mapping (account_of [erin] [])) = [''AWS'', ''Customer'']"
    by (simp add: mapping_simps person_simps Let_def)
  have 3: "map ManagedBy (principal_policy_mapping (account_of [erin_swapped] []))
        = [''Customer'', ''AWS'']"
    by (simp add: mapping_simps person_simps Let_def)
  from 2 3 have "principal_policy_mapping (account_of [erin] [])
        \<noteq> principal_policy_mapping (account_of [erin_swapped] [])"
    by auto
  with 1 2 3 show ?thesis by blast
qed

text \<open>
  C5 at an example: the users and the attached policies of fay are permuted, the keys of
  the mapping are distinct, and the mapping is the same.
\<close>

theorem C5_witness:
  "same_up_to_order (account_of [dana, fay] [Ops]) (account_of [fay_swapped, dana] [Ops])
   \<and> map mapping_key (principal_policy_mapping (account_of [dana, fay] [Ops])) =
       [(''Group'', ''Ops'', ''Inline'', ''Deploy''),
        (''Group'', ''Ops'', ''Managed'', ''AdministratorAccess''),
        (''User'', ''dana'', ''Managed'', ''ReadOnlyAccess''),
        (''User'', ''fay'', ''Inline'', ''Deploy''),
        (''User'', ''fay'', ''Inline'', ''Notes''),
        (''User'', ''fay'', ''Managed'', ''AdministratorAccess''),
        (''User'', ''fay'', ''Managed'', ''Billing''),
        (''User'', ''fay'', ''Managed'', ''ReadOnlyAccess'')]
   \<and> principal_policy_mapping (account_of [fay_swapped, dana] [Ops])
       = principal_policy_mapping (account_of [dana, fay] [Ops])"
proof -
  let ?a = "account_of [dana, fay] [Ops]" and ?b = "account_of [fay_swapped, dana] [Ops]"
  have s: "same_up_to_order ?a ?b"
    by (simp add: same_up_to_order_def principal_signature_def person_simps)
  have k: "map mapping_key (principal_policy_mapping ?a) =
       [(''Group'', ''Ops'', ''Inline'', ''Deploy''),
        (''Group'', ''Ops'', ''Managed'', ''AdministratorAccess''),
        (''User'', ''dana'', ''Managed'', ''ReadOnlyAccess''),
        (''User'', ''fay'', ''Inline'', ''Deploy''),
        (''User'', ''fay'', ''Inline'', ''Notes''),
        (''User'', ''fay'', ''Managed'', ''AdministratorAccess''),
        (''User'', ''fay'', ''Managed'', ''Billing''),
        (''User'', ''fay'', ''Managed'', ''ReadOnlyAccess'')]"
    by (simp add: mapping_simps person_simps Let_def)
  have d: "distinct (map mapping_key (principal_policy_mapping ?a))"
    unfolding k by simp
  from C5_mapping_sorted_and_order_independent [of ?a cascade_mapping ?b] s d
  have "principal_policy_mapping ?b = principal_policy_mapping ?a"
    by blast
  with s k show ?thesis by blast
qed

section \<open>The group lookup of the mapping builder\<close>

text \<open>
  The builder sets a group membership on the entries of users only: the entries of groups
  and roles carry none.
\<close>

lemma builder_comment_only_on_users:
  assumes "e \<in> set (principal_policy_mapping a)" and "GroupMembership e \<noteq> None"
  shows "Type e = ''User''"
proof -
  from assms(1) obtain p where "e \<in> set (entries_of (principals a) p)"
    by (auto simp add: principal_policy_mapping_def unsorted_mapping_eq)
  with assms(2) show ?thesis
    by (auto simp add: entries_of_def own_entries_def inherited_entries_def inline_entry_def
        managed_entry_def split: if_splits)
qed

lemma set_inherited_entries:
  "e \<in> set (inherited_entries all_principals p) \<longleftrightarrow>
     (\<exists>g\<in>set all_principals. principal_type g = ''Group'' \<and> name g \<in> set (group_member p)
        \<and> e \<in> set (own_entries p g (Some (group_member p))))"
  by (auto simp add: inherited_entries_def split: if_splits)

text \<open>
  C10, for each declared group name on its own. The builder finds the groups of a user by
  equality of a declared group name with the name of a principal of type \<open>"Group"\<close>: the
  inherited entries of a user are, for each declared name in turn, the entries of the
  policies of every group that carries exactly that name. An entry is inherited if and only
  if it comes from such a group. When no group carries exactly a declared name, no inherited
  entry is added and the entries of the user are those of its own policies.
\<close>

theorem C10_group_lookup_by_exact_name:
  "group_inherited_entries all_principals p acc = acc @ inherited_entries all_principals p
   \<and> (e \<in> set (inherited_entries all_principals p) \<longleftrightarrow>
        (\<exists>g\<in>set all_principals. principal_type g = ''Group'' \<and> name g \<in> set (group_member p)
           \<and> e \<in> set (own_entries p g (Some (group_member p)))))
   \<and> ((\<forall>g\<in>set all_principals.
          principal_type g = ''Group'' \<longrightarrow> name g \<notin> set (group_member p))
       \<longrightarrow> group_inherited_entries all_principals p acc = acc
           \<and> principal_entries all_principals p acc = policy_entries p p None acc)"
proof (intro conjI impI)
  show "group_inherited_entries all_principals p acc = acc @ inherited_entries all_principals p"
    by (rule group_inherited_entries_eq)
  show "e \<in> set (inherited_entries all_principals p) \<longleftrightarrow>
        (\<exists>g\<in>set all_principals. principal_type g = ''Group'' \<and> name g \<in> set (group_member p)
           \<and> e \<in> set (own_entries p g (Some (group_member p))))"
    by (rule set_inherited_entries)
  assume h: "\<forall>g\<in>set all_principals.
          principal_type g = ''Group'' \<longrightarrow> name g \<notin> set (group_member p)"
  have n: "inherited_entries all_principals p = []"
  proof (rule ccontr)
    assume "inherited_entries all_principals p \<noteq> []"
    then obtain x where "x \<in> set (inherited_entries all_principals p)"
      by (cases "inherited_entries all_principals p") auto
    with h show False
      unfolding set_inherited_entries by blast
  qed
  show "group_inherited_entries all_principals p acc = acc"
    by (simp add: group_inherited_entries_eq n)
  show "principal_entries all_principals p acc = policy_entries p p None acc"
    by (simp add: principal_entries_eq entries_of_def n policy_entries_own)
qed

text \<open>
  C10 does not hold for a user as a whole: zed declares \<open>ops\<close>, which differs from the group
  \<open>Ops\<close> in case only, and \<open>Platform\<close>, which is the name of a group. The mapping holds the
  entry zed inherits from \<open>Platform\<close>, and none from \<open>Ops\<close>.
\<close>

theorem C10_mixed_case_counterexample:
  "''ops'' \<in> set (group_member zed) \<and> principal_type Ops = ''Group''
   \<and> lower ''ops'' = lower (name Ops) \<and> ''ops'' \<noteq> name Ops
   \<and> map (\<lambda>e. (Principal e, PolicyName e, GroupMembership e))
         (filter (\<lambda>e. GroupMembership e \<noteq> None) (principal_policy_mapping zed_account))
       = [(''zed'', ''Pipelines'', Some [''ops'', ''Platform''])]"
  by (simp add: mapping_simps person_simps zed_def Platform_def zed_account_def Let_def
      lower_def lower_char_def)

text \<open>
  C10 at two examples: zed inherits the policy of \<open>Platform\<close> only; dana declares \<open>ops\<close>, the
  group is named \<open>Ops\<close>, and dana inherits nothing.
\<close>

theorem C10_witness:
  "map PolicyName (group_inherited_entries (principals zed_account) zed []) = [''Pipelines'']
   \<and> lower (name Ops) \<in> set (map lower (group_member dana))
   \<and> group_inherited_entries (principals ops_account) dana [] = []"
proof -
  have h: "\<forall>g\<in>set (principals ops_account).
             principal_type g = ''Group'' \<longrightarrow> name g \<notin> set (group_member dana)"
    by (simp add: principals_def ops_account_def dana_def Ops_def)
  have l: "lower (name Ops) \<in> set (map lower (group_member dana))"
    by (simp add: dana_def Ops_def lower_def lower_char_def)
  from C10_group_lookup_by_exact_name [of "principals ops_account" dana "[]"] h
  have d: "group_inherited_entries (principals ops_account) dana [] = []"
    by blast
  from C10_group_lookup_by_exact_name [of "principals zed_account" zed "[]"]
  have "group_inherited_entries (principals zed_account) zed []
          = [] @ inherited_entries (principals zed_account) zed"
    by blast
  then have z: "map PolicyName (group_inherited_entries (principals zed_account) zed [])
                  = [''Pipelines'']"
    by (simp add: inherited_entries_def own_entries_def inline_entry_def managed_entry_def
        principals_def zed_account_def account_of_def zed_def Ops_def Platform_def)
  from z l d show ?thesis by blast
qed

end
